theory Spec2Isabelle
  imports Complex_Main "HOL-Library.Word"
begin

section \<open>Venturi flowmeter firmware\<close>

text \<open>
  The sketch is embedded as it is written: the globals form a state record, the sensor
  read of each cycle is an argument, and \<open>loop\<close> returns the updated globals together
  with the values it hands to \<open>displayData\<close> and \<open>outputSerialData\<close>.

  Numeric types. \<open>long\<close> values (raw readings, calibration bounds) are \<open>int\<close>: the
  \<open>long\<close> arithmetic of the sketch is the difference and the sum of the calibration
  bounds and the difference of an accepted reading and the truncated filter value, none
  of which comes near the 32-bit limits. \<open>int failureCount\<close> is a 16-bit word (the
  width of \<open>int\<close> on the AVR boards the sketch targets), incremented with wrap-around
  and compared as a signed value. \<open>float\<close> values are idealised as \<open>real\<close>: rounding
  is not modelled, and a division whose divisor is zero, which has no real value, is a
  fault of the model. The argument \<open>samples\<close> of \<open>stabilizeFilter\<close> is a \<open>nat\<close>; the
  sketch calls it with 20.
\<close>

subsection \<open>Configuration section\<close>

text \<open>The two calibration constants, which the sketch asks the operator to replace with
  the output of the calibration run.\<close>

record config =
  SENSOR_RAW_MIN :: int
  SENSOR_RAW_MAX :: int

definition firmware_config :: config where
  "firmware_config = \<lparr>SENSOR_RAW_MIN = 510, SENSOR_RAW_MAX = 9230\<rparr>"

definition H_MAX_METERS :: real where
  "H_MAX_METERS = 0.145"

definition PIPE_D1_METERS :: real where
  "PIPE_D1_METERS = 0.0254"

definition PIPE_D2_METERS :: real where
  "PIPE_D2_METERS = 0.0127"

definition FLUID_DENSITY :: real where
  "FLUID_DENSITY = 1000.0"

definition MANOMETER_DENSITY :: real where
  "MANOMETER_DENSITY = 1.225"

definition DISCHARGE_COEFF :: real where
  "DISCHARGE_COEFF = 0.97"

definition EMA_ALPHA :: real where
  "EMA_ALPHA = 0.1"

definition MIN_FLOW_HEIGHT :: real where
  "MIN_FLOW_HEIGHT = 0.001"

definition EXTREME_MIN :: int where
  "EXTREME_MIN = 0"

definition EXTREME_MAX :: int where
  "EXTREME_MAX = 15000"

definition MAX_FAILURES :: "16 word" where
  "MAX_FAILURES = 5"

definition HEIGHT_STEPS :: "real list" where
  "HEIGHT_STEPS =
     [0.000, 0.010, 0.020, 0.030, 0.040, 0.050, 0.060, 0.070,
      0.080, 0.090, 0.100, 0.110, 0.120, 0.130, 0.140, 0.145]"

definition HEIGHT_STEPS_COUNT :: nat where
  "HEIGHT_STEPS_COUNT = length HEIGHT_STEPS"

definition GRAVITY :: real where
  "GRAVITY = 9.81"

definition DENSITY_DIFF :: real where
  "DENSITY_DIFF = FLUID_DENSITY - MANOMETER_DENSITY"

definition AREA_1 :: real where
  "AREA_1 = pi * (PIPE_D1_METERS / 2.0) ^ 2"

definition AREA_2 :: real where
  "AREA_2 = pi * (PIPE_D2_METERS / 2.0) ^ 2"

definition AREA_RATIO_SQ :: real where
  "AREA_RATIO_SQ = (AREA_2 / AREA_1) ^ 2"

definition FLOW_CONSTANT :: real where
  "FLOW_CONSTANT =
     DISCHARGE_COEFF * AREA_2 * sqrt ((2.0 / FLUID_DENSITY) / (1.0 - AREA_RATIO_SQ))"

subsection \<open>Arduino macros and conversions\<close>

text \<open>\<open>#define abs(x) ((x)>0?(x):-(x))\<close>\<close>

definition abs_macro :: "'a::{ord,uminus,zero} \<Rightarrow> 'a" where
  "abs_macro x = (if x > 0 then x else - x)"

text \<open>\<open>#define constrain(amt,low,high) ((amt)<(low)?(low):((amt)>(high)?(high):(amt)))\<close>\<close>

definition constrain :: "'a::ord \<Rightarrow> 'a \<Rightarrow> 'a \<Rightarrow> 'a" where
  "constrain amt low high = (if amt < low then low else if amt > high then high else amt)"

text \<open>The conversion \<open>(long)x\<close> of a float: the fractional part is discarded.\<close>

definition long_of_float :: "real \<Rightarrow> int" where
  "long_of_float x = (if x \<ge> 0 then \<lfloor>x\<rfloor> else \<lceil>x\<rceil>)"

datatype fault = DivisionByZero

text \<open>Float division; a zero divisor yields no real number.\<close>

definition float_div :: "real \<Rightarrow> real \<Rightarrow> fault + real" where
  "float_div a b = (if b = 0 then Inl DivisionByZero else Inr (a / b))"

subsection \<open>Global state and per-cycle output\<close>

record state =
  filteredReading :: real
  lastValidHeight :: real
  failureCount :: "16 word"
  inFallbackMode :: bool

text \<open>The initialisers of the global variables.\<close>

definition globals0 :: state where
  "globals0 = \<lparr>filteredReading = 0.0, lastValidHeight = 0.0,
               failureCount = 0, inFallbackMode = False\<rparr>"

text \<open>The two messages \<open>loop\<close> prints when the mode changes.\<close>

datatype notification = Normal_Restored | Fallback_Activated

text \<open>The arguments of \<open>outputSerialData\<close>, and the mode message of the cycle if any.\<close>

record frame =
  rawValue :: int
  isValid :: bool
  heightCalculated :: real
  heightSnapped :: real
  pressureDiff :: real
  flowRate :: real
  notice :: "notification option"

subsection \<open>Validation and processing functions\<close>

definition validateReading :: "config \<Rightarrow> state \<Rightarrow> int \<Rightarrow> bool" where
  "validateReading cfg s raw =
     (if raw < EXTREME_MIN \<or> raw > EXTREME_MAX then False
      else if filteredReading s > 0 then
        (let delta = abs_macro (raw - long_of_float (filteredReading s));
             maxDelta = long_of_float (real_of_int (SENSOR_RAW_MAX cfg - SENSOR_RAW_MIN cfg) * 0.5)
         in if delta > maxDelta then False else True)
      else True)"

text \<open>The body of the \<open>for\<close> loop of \<open>snapToRealisticValue\<close>, over the remaining
  entries of the table; the accumulator is \<open>(minDifference, nearestValue)\<close>.\<close>

fun snap_loop :: "real \<Rightarrow> real list \<Rightarrow> real \<times> real \<Rightarrow> real \<times> real" where
  "snap_loop calculatedHeight [] acc = acc"
| "snap_loop calculatedHeight (step # steps) (minDifference, nearestValue) =
     (let difference = abs_macro (calculatedHeight - step)
      in if difference < minDifference
         then snap_loop calculatedHeight steps (difference, step)
         else snap_loop calculatedHeight steps (minDifference, nearestValue))"

definition snapToRealisticValue :: "real \<Rightarrow> real" where
  "snapToRealisticValue calculatedHeight =
     snd (snap_loop calculatedHeight HEIGHT_STEPS (1000.0, calculatedHeight))"

definition calculateFlowRate :: "real \<Rightarrow> real" where
  "calculateFlowRate height =
     (if height < MIN_FLOW_HEIGHT then 0.0
      else
        (let pressureDiff0 = DENSITY_DIFF * GRAVITY * height;
             pressureDiff1 = (if pressureDiff0 < 0.0 then 0.0 else pressureDiff0);
             flowRateCubicMeters = FLOW_CONSTANT * sqrt pressureDiff1;
             flowRateLiters = flowRateCubicMeters * 1000.0
         in flowRateLiters))"

subsection \<open>Initialisation\<close>

text \<open>One EMA update of the filter state.\<close>

definition ema_update :: "int \<Rightarrow> state \<Rightarrow> state" where
  "ema_update reading s =
     s\<lparr>filteredReading :=
         (EMA_ALPHA * real_of_int reading) + ((1.0 - EMA_ALPHA) * filteredReading s)\<rparr>"

text \<open>\<open>stabilizeFilter(samples)\<close>; \<open>sensor i\<close> is the value the \<open>i\<close>-th sensor read of
  the loop returns.\<close>

definition stabilizeFilter :: "nat \<Rightarrow> (nat \<Rightarrow> int) \<Rightarrow> state \<Rightarrow> state" where
  "stabilizeFilter samples sensor s =
     fold (\<lambda>i s. let reading = sensor i in if reading \<ge> 0 then ema_update reading s else s)
          [0..<samples] s"

text \<open>\<open>initializeSystem()\<close>; \<open>initialValue\<close> is its first sensor read and \<open>sensor\<close>
  gives the twenty reads of the stabilisation. It has no failing path.\<close>

definition initializeSystem :: "config \<Rightarrow> int \<Rightarrow> (nat \<Rightarrow> int) \<Rightarrow> state \<Rightarrow> state" where
  "initializeSystem cfg initialValue sensor s =
     (let s1 = (if validateReading cfg s initialValue
                then s\<lparr>filteredReading := real_of_int initialValue\<rparr>
                else s\<lparr>filteredReading :=
                        real_of_int (SENSOR_RAW_MIN cfg + SENSOR_RAW_MAX cfg) / 2.0\<rparr>)
      in stabilizeFilter 20 sensor s1)"

subsection \<open>Main loop\<close>

text \<open>Clamp to the calibrated range and map to height (linear interpolation).\<close>

definition heightMapping :: "config \<Rightarrow> real \<Rightarrow> fault + real" where
  "heightMapping cfg filtered =
     (let clampedValue = constrain filtered (real_of_int (SENSOR_RAW_MIN cfg))
                                            (real_of_int (SENSOR_RAW_MAX cfg))
      in case float_div (clampedValue - real_of_int (SENSOR_RAW_MIN cfg))
                        (real_of_int (SENSOR_RAW_MAX cfg - SENSOR_RAW_MIN cfg)) of
           Inl e \<Rightarrow> Inl e
         | Inr normalizedValue \<Rightarrow> Inr (normalizedValue * H_MAX_METERS))"

text \<open>Steps 3 to 6 of \<open>loop\<close>: pressure difference with its clamp, flow rate, and the
  values handed to the display and the serial output.\<close>

definition report :: "int \<Rightarrow> bool \<Rightarrow> real \<Rightarrow> real \<Rightarrow> notification option \<Rightarrow> frame" where
  "report raw valid hCalc hSnap msg =
     (let pressureDiff0 = DENSITY_DIFF * GRAVITY * hSnap;
          pressureDiff1 = (if pressureDiff0 < 0.0 then 0.0 else pressureDiff0)
      in \<lparr>rawValue = raw, isValid = valid, heightCalculated = hCalc, heightSnapped = hSnap,
          pressureDiff = pressureDiff1, flowRate = calculateFlowRate hSnap, notice = msg\<rparr>)"

text \<open>One execution of \<open>loop()\<close> on the sensor reading \<open>raw\<close>.\<close>

definition loop :: "config \<Rightarrow> state \<Rightarrow> int \<Rightarrow> fault + (state \<times> frame)" where
  "loop cfg s raw =
     (if validateReading cfg s raw then
        (let s1 = s\<lparr>failureCount := 0\<rparr>;
             msg = (if inFallbackMode s1 then Some Normal_Restored else None);
             s2 = (if inFallbackMode s1 then s1\<lparr>inFallbackMode := False\<rparr> else s1);
             s3 = ema_update raw s2
         in case heightMapping cfg (filteredReading s3) of
              Inl e \<Rightarrow> Inl e
            | Inr hCalc \<Rightarrow>
                (let hSnap = snapToRealisticValue hCalc;
                     s4 = s3\<lparr>lastValidHeight := hSnap\<rparr>
                 in Inr (s4, report raw True hCalc hSnap msg)))
      else
        (let s1 = s\<lparr>failureCount := failureCount s + 1\<rparr>;
             enter = (\<not> inFallbackMode s1 \<and> MAX_FAILURES \<le>s failureCount s1);
             msg = (if enter then Some Fallback_Activated else None);
             s2 = (if enter then s1\<lparr>inFallbackMode := True\<rparr> else s1);
             hSnap = lastValidHeight s2;
             hCalc = hSnap
         in Inr (s2, report raw False hCalc hSnap msg)))"

text \<open>Successive executions of \<open>loop()\<close> on a sequence of sensor readings, collecting
  what each cycle reports.\<close>

fun cycles :: "config \<Rightarrow> state \<Rightarrow> int list \<Rightarrow> fault + (state \<times> frame list)" where
  "cycles cfg s [] = Inr (s, [])"
| "cycles cfg s (raw # raws) =
     (case loop cfg s raw of
        Inl e \<Rightarrow> Inl e
      | Inr (s', fr) \<Rightarrow>
          (case cycles cfg s' raws of
             Inl e \<Rightarrow> Inl e
           | Inr (s'', frs) \<Rightarrow> Inr (s'', fr # frs)))"

text \<open>The states in which a cycle of the main loop can start: the state left by
  \<open>setup()\<close>, and the state left by any completed cycle.\<close>

inductive reachable :: "config \<Rightarrow> state \<Rightarrow> bool" for cfg :: config where
  start: "reachable cfg (initializeSystem cfg initialValue sensor globals0)"
| cycle: "reachable cfg s \<Longrightarrow> loop cfg s raw = Inr (s', fr) \<Longrightarrow> reachable cfg s'"


section \<open>Auxiliary facts\<close>

subsection \<open>Macros and constants\<close>

lemma abs_macro_real: "abs_macro (x::real) = \<bar>x\<bar>"
  by (simp add: abs_macro_def)

lemma constrain_bounds:
  fixes amt :: real
  assumes "low \<le> high"
  shows "low \<le> constrain amt low high \<and> constrain amt low high \<le> high"
  using assms by (simp add: constrain_def)

lemma AREA_RATIO_SQ_value: "AREA_RATIO_SQ = 1 / 16"
  by (simp add: AREA_RATIO_SQ_def AREA_1_def AREA_2_def PIPE_D1_METERS_def PIPE_D2_METERS_def
      power2_eq_square)

lemma FLOW_CONSTANT_nonneg: "0 \<le> FLOW_CONSTANT"
  unfolding FLOW_CONSTANT_def DISCHARGE_COEFF_def AREA_2_def AREA_RATIO_SQ_value FLUID_DENSITY_def
  by (intro mult_nonneg_nonneg real_sqrt_ge_zero) simp_all

lemma DENSITY_GRAVITY_pos: "0 < DENSITY_DIFF * GRAVITY"
  by (simp add: DENSITY_DIFF_def GRAVITY_def FLUID_DENSITY_def MANOMETER_DENSITY_def)

lemma firmware_range: "SENSOR_RAW_MIN firmware_config < SENSOR_RAW_MAX firmware_config"
  by (simp add: firmware_config_def)

lemma lattice_nonneg: "v \<in> set HEIGHT_STEPS \<Longrightarrow> 0 \<le> v"
  by (auto simp add: HEIGHT_STEPS_def)

lemma zero_in_lattice: "0 \<in> set HEIGHT_STEPS"
  by (simp add: HEIGHT_STEPS_def)

subsection \<open>The snapping loop\<close>

text \<open>When no remaining entry is strictly closer than the current minimum, the
  accumulator comes back unchanged.\<close>

lemma snap_loop_keep:
  "\<forall>v\<in>set steps. \<not> \<bar>h - v\<bar> < m \<Longrightarrow> snap_loop h steps (m, n) = (m, n)"
  by (induction steps) (simp_all add: abs_macro_real)

text \<open>Otherwise the loop ends on the entry of least index among those at minimal
  distance.\<close>

lemma snap_loop_pick:
  "\<exists>v\<in>set steps. \<bar>h - v\<bar> < m \<Longrightarrow>
   \<exists>i<length steps. snap_loop h steps (m, n) = (\<bar>h - steps ! i\<bar>, steps ! i) \<and>
      \<bar>h - steps ! i\<bar> < m \<and>
      (\<forall>j<i. \<bar>h - steps ! i\<bar> < \<bar>h - steps ! j\<bar>) \<and>
      (\<forall>j<length steps. \<bar>h - steps ! i\<bar> \<le> \<bar>h - steps ! j\<bar>)"
proof (induction steps arbitrary: m n)
  case Nil
  then show ?case by simp
next
  case (Cons v vs)
  let ?d = "\<bar>h - v\<bar>"
  show ?case
  proof (cases "?d < m")
    case better: True
    show ?thesis
    proof (cases "\<exists>w\<in>set vs. \<bar>h - w\<bar> < ?d")
      case True
      from Cons.IH[OF True, of v] obtain i where i: "i < length vs"
        "snap_loop h vs (?d, v) = (\<bar>h - vs ! i\<bar>, vs ! i)" "\<bar>h - vs ! i\<bar> < ?d"
        "\<forall>j<i. \<bar>h - vs ! i\<bar> < \<bar>h - vs ! j\<bar>" "\<forall>j<length vs. \<bar>h - vs ! i\<bar> \<le> \<bar>h - vs ! j\<bar>"
        by blast
      have a: "\<forall>j<Suc i. \<bar>h - vs ! i\<bar> < \<bar>h - (v # vs) ! j\<bar>"
        using i(3,4) by (auto simp: less_Suc_eq_0_disj)
      have b: "\<forall>j<length (v # vs). \<bar>h - vs ! i\<bar> \<le> \<bar>h - (v # vs) ! j\<bar>"
        using i(3,5) by (auto simp: less_Suc_eq_0_disj)
      have "Suc i < length (v # vs) \<and>
          snap_loop h (v # vs) (m, n) = (\<bar>h - (v # vs) ! Suc i\<bar>, (v # vs) ! Suc i) \<and>
          \<bar>h - (v # vs) ! Suc i\<bar> < m"
        using i(1,2,3) better by (simp add: abs_macro_real)
      with a b show ?thesis by (intro exI[of _ "Suc i"]) simp
    next
      case False
      then have keep: "snap_loop h vs (?d, v) = (?d, v)" by (simp add: snap_loop_keep)
      have b: "\<forall>j<length (v # vs). ?d \<le> \<bar>h - (v # vs) ! j\<bar>"
        using False by (auto simp: less_Suc_eq_0_disj not_less)
      have "snap_loop h (v # vs) (m, n) = (?d, v)"
        using keep better by (simp add: abs_macro_real)
      with better b show ?thesis by (intro exI[of _ 0]) simp
    qed
  next
    case worse: False
    with Cons.prems have ex: "\<exists>w\<in>set vs. \<bar>h - w\<bar> < m" by auto
    from Cons.IH[OF ex, of n] obtain i where i: "i < length vs"
      "snap_loop h vs (m, n) = (\<bar>h - vs ! i\<bar>, vs ! i)" "\<bar>h - vs ! i\<bar> < m"
      "\<forall>j<i. \<bar>h - vs ! i\<bar> < \<bar>h - vs ! j\<bar>" "\<forall>j<length vs. \<bar>h - vs ! i\<bar> \<le> \<bar>h - vs ! j\<bar>"
      by blast
    have a: "\<forall>j<Suc i. \<bar>h - vs ! i\<bar> < \<bar>h - (v # vs) ! j\<bar>"
      using i(3,4) worse by (auto simp: less_Suc_eq_0_disj)
    have b: "\<forall>j<length (v # vs). \<bar>h - vs ! i\<bar> \<le> \<bar>h - (v # vs) ! j\<bar>"
      using i(3,5) worse by (auto simp: less_Suc_eq_0_disj)
    have "Suc i < length (v # vs) \<and>
        snap_loop h (v # vs) (m, n) = (\<bar>h - (v # vs) ! Suc i\<bar>, (v # vs) ! Suc i) \<and>
        \<bar>h - (v # vs) ! Suc i\<bar> < m"
      using i(1,2,3) worse by (simp add: abs_macro_real)
    with a b show ?thesis by (intro exI[of _ "Suc i"]) simp
  qed
qed

lemma snap_lattice:
  assumes "\<exists>v\<in>set HEIGHT_STEPS. \<bar>h - v\<bar> < 1000"
  shows "\<exists>i<length HEIGHT_STEPS. snapToRealisticValue h = HEIGHT_STEPS ! i \<and>
      (\<forall>j<i. \<bar>h - HEIGHT_STEPS ! i\<bar> < \<bar>h - HEIGHT_STEPS ! j\<bar>) \<and>
      (\<forall>j<length HEIGHT_STEPS. \<bar>h - HEIGHT_STEPS ! i\<bar> \<le> \<bar>h - HEIGHT_STEPS ! j\<bar>)"
proof -
  from snap_loop_pick[OF assms, of h] obtain i where "i < length HEIGHT_STEPS"
    "snap_loop h HEIGHT_STEPS (1000, h) = (\<bar>h - HEIGHT_STEPS ! i\<bar>, HEIGHT_STEPS ! i)"
    "\<forall>j<i. \<bar>h - HEIGHT_STEPS ! i\<bar> < \<bar>h - HEIGHT_STEPS ! j\<bar>"
    "\<forall>j<length HEIGHT_STEPS. \<bar>h - HEIGHT_STEPS ! i\<bar> \<le> \<bar>h - HEIGHT_STEPS ! j\<bar>"
    by blast
  then show ?thesis by (auto simp add: snapToRealisticValue_def)
qed

lemma snap_clamped_in_lattice:
  assumes "0 \<le> h" and "h \<le> H_MAX_METERS"
  shows "snapToRealisticValue h \<in> set HEIGHT_STEPS"
proof -
  have "\<bar>h - 0\<bar> < 1000" using assms by (simp add: H_MAX_METERS_def)
  with zero_in_lattice have "\<exists>v\<in>set HEIGHT_STEPS. \<bar>h - v\<bar> < 1000" by blast
  from snap_lattice[OF this] show ?thesis by auto
qed


subsection \<open>Stabilisation and initialisation\<close>

lemma stabilizeFilter_0: "stabilizeFilter 0 sensor s = s"
  by (simp add: stabilizeFilter_def)

lemma stabilizeFilter_Suc:
  "stabilizeFilter (Suc n) sensor s =
     (if sensor n \<ge> 0 then ema_update (sensor n) (stabilizeFilter n sensor s)
      else stabilizeFilter n sensor s)"
  by (simp add: stabilizeFilter_def Let_def)

lemma ema_update_other [simp]:
  "lastValidHeight (ema_update r s) = lastValidHeight s"
  "failureCount (ema_update r s) = failureCount s"
  "inFallbackMode (ema_update r s) = inFallbackMode s"
  by (simp_all add: ema_update_def)

lemma stabilizeFilter_other:
  "lastValidHeight (stabilizeFilter n sensor s) = lastValidHeight s \<and>
   failureCount (stabilizeFilter n sensor s) = failureCount s \<and>
   inFallbackMode (stabilizeFilter n sensor s) = inFallbackMode s"
  by (induction n) (simp_all add: stabilizeFilter_0 stabilizeFilter_Suc)

lemma stabilizeFilter_hold:
  "\<forall>i<n. sensor i < 0 \<Longrightarrow> stabilizeFilter n sensor s = s"
proof (induction n)
  case 0
  show ?case by (simp add: stabilizeFilter_0)
next
  case (Suc n)
  then have "sensor n < 0" and "stabilizeFilter n sensor s = s" by simp_all
  then show ?case by (simp add: stabilizeFilter_Suc)
qed

text \<open>A sensor that keeps returning the value the filter already holds leaves it there.\<close>

lemma stabilizeFilter_steady:
  "filteredReading s = real_of_int r \<Longrightarrow> 0 \<le> r \<Longrightarrow>
   filteredReading (stabilizeFilter n (\<lambda>i. r) s) = real_of_int r"
  by (induction n)
     (simp_all add: stabilizeFilter_0 stabilizeFilter_Suc ema_update_def EMA_ALPHA_def)

lemma initializeSystem_other:
  "lastValidHeight (initializeSystem cfg iv sensor s) = lastValidHeight s \<and>
   failureCount (initializeSystem cfg iv sensor s) = failureCount s \<and>
   inFallbackMode (initializeSystem cfg iv sensor s) = inFallbackMode s"
  by (simp add: initializeSystem_def Let_def stabilizeFilter_other)

subsection \<open>One cycle of the main loop\<close>

lemma validateReading_filtered:
  "filteredReading s = filteredReading t \<Longrightarrow> validateReading cfg s raw = validateReading cfg t raw"
  by (simp add: validateReading_def)

lemma report_simps [simp]:
  "rawValue (report raw valid hCalc hSnap msg) = raw"
  "isValid (report raw valid hCalc hSnap msg) = valid"
  "heightCalculated (report raw valid hCalc hSnap msg) = hCalc"
  "heightSnapped (report raw valid hCalc hSnap msg) = hSnap"
  "flowRate (report raw valid hCalc hSnap msg) = calculateFlowRate hSnap"
  "notice (report raw valid hCalc hSnap msg) = msg"
  by (simp_all add: report_def Let_def)

lemma pressureDiff_report:
  "0 \<le> hSnap \<Longrightarrow>
   pressureDiff (report raw valid hCalc hSnap msg) = DENSITY_DIFF * GRAVITY * hSnap"
proof -
  assume "0 \<le> hSnap"
  then have "\<not> DENSITY_DIFF * GRAVITY * hSnap < 0"
    using DENSITY_GRAVITY_pos by (simp add: not_less)
  then show ?thesis by (simp add: report_def Let_def)
qed

lemma calculateFlowRate_unclamped:
  "0 \<le> h \<Longrightarrow> calculateFlowRate h =
     (if h < MIN_FLOW_HEIGHT then 0
      else FLOW_CONSTANT * sqrt (DENSITY_DIFF * GRAVITY * h) * 1000)"
proof -
  assume "0 \<le> h"
  then have "\<not> DENSITY_DIFF * GRAVITY * h < 0"
    using DENSITY_GRAVITY_pos by (simp add: not_less)
  then show ?thesis by (simp add: calculateFlowRate_def Let_def)
qed

text \<open>The signed comparison with \<open>MAX_FAILURES\<close> on the first four failures.\<close>

lemma sle_small: "k < 4 \<Longrightarrow> \<not> (5 :: 16 word) \<le>s of_nat k + 1"
proof -
  assume "k < 4"
  then consider "k = 0" | "k = 1" | "k = 2" | "k = 3" by linarith
  then show ?thesis by cases (simp_all add: word_sle_eq)
qed

text \<open>An invalid cycle, for a state whose counter is \<open>k\<close> and whose flag is set exactly
  when \<open>k\<close> has reached the threshold.\<close>

lemma loop_invalid:
  assumes "\<not> validateReading cfg s raw" "failureCount s = of_nat k" "inFallbackMode s \<longleftrightarrow> 5 \<le> k"
  shows "loop cfg s raw =
     Inr (s\<lparr>failureCount := of_nat (Suc k), inFallbackMode := (5 \<le> Suc k)\<rparr>,
          report raw False (lastValidHeight s) (lastValidHeight s)
            (if Suc k = 5 then Some Fallback_Activated else None))"
proof (cases s)
  case (fields f l c b)
  consider "k < 4" | "k = 4" | "5 \<le> k" by linarith
  then show ?thesis
  proof cases
    case 1
    then show ?thesis using assms fields sle_small[OF 1]
      by (simp add: loop_def Let_def MAX_FAILURES_def)
  next
    case 2
    then show ?thesis using assms fields
      by (simp add: loop_def Let_def MAX_FAILURES_def word_sle_eq)
  next
    case 3
    then show ?thesis using assms fields
      by (simp add: loop_def Let_def MAX_FAILURES_def)
  qed
qed

text \<open>An invalid cycle from any state: the filter and the held height are not touched.\<close>

lemma loop_invalid_any:
  assumes "\<not> validateReading cfg s raw"
  shows "\<exists>s' msg. loop cfg s raw =
            Inr (s', report raw False (lastValidHeight s) (lastValidHeight s) msg) \<and>
          lastValidHeight s' = lastValidHeight s \<and> filteredReading s' = filteredReading s"
  using assms by (auto simp add: loop_def Let_def)

lemma heightMapping_ok:
  assumes "SENSOR_RAW_MIN cfg \<noteq> SENSOR_RAW_MAX cfg"
  shows "heightMapping cfg f =
     Inr ((constrain f (real_of_int (SENSOR_RAW_MIN cfg)) (real_of_int (SENSOR_RAW_MAX cfg))
            - real_of_int (SENSOR_RAW_MIN cfg))
          / real_of_int (SENSOR_RAW_MAX cfg - SENSOR_RAW_MIN cfg) * H_MAX_METERS)"
  using assms by (simp add: heightMapping_def float_div_def Let_def)

lemma heightMapping_degenerate:
  assumes "SENSOR_RAW_MIN cfg = SENSOR_RAW_MAX cfg"
  shows "heightMapping cfg f = Inl DivisionByZero"
  using assms by (simp add: heightMapping_def float_div_def Let_def)

lemma heightMapping_range:
  assumes "SENSOR_RAW_MIN cfg < SENSOR_RAW_MAX cfg"
  shows "\<exists>h. heightMapping cfg f = Inr h \<and> 0 \<le> h \<and> h \<le> H_MAX_METERS"
proof -
  let ?lo = "real_of_int (SENSOR_RAW_MIN cfg)" and ?hi = "real_of_int (SENSOR_RAW_MAX cfg)"
  let ?c = "constrain f ?lo ?hi"
  have lt: "?lo < ?hi" using assms by simp
  then have c: "?lo \<le> ?c" "?c \<le> ?hi" using constrain_bounds[of ?lo ?hi f] by simp_all
  let ?n = "(?c - ?lo) / (?hi - ?lo)"
  have n0: "0 \<le> ?n" using c lt by simp
  have n1: "?n \<le> 1" using c lt by simp
  have H: "0 \<le> H_MAX_METERS" by (simp add: H_MAX_METERS_def)
  have "0 \<le> ?n * H_MAX_METERS" by (rule mult_nonneg_nonneg[OF n0 H])
  moreover have "?n * H_MAX_METERS \<le> H_MAX_METERS"
    using n1 H mult_right_mono[of ?n 1 H_MAX_METERS] by simp
  moreover have "heightMapping cfg f = Inr (?n * H_MAX_METERS)"
    using assms by (simp add: heightMapping_ok)
  ultimately show ?thesis by blast
qed

lemma loop_valid:
  assumes "validateReading cfg s raw"
    and "heightMapping cfg (filteredReading (ema_update raw s)) = Inr hCalc"
  shows "loop cfg s raw =
     Inr (s\<lparr>filteredReading := EMA_ALPHA * real_of_int raw + (1 - EMA_ALPHA) * filteredReading s,
             lastValidHeight := snapToRealisticValue hCalc,
             failureCount := 0, inFallbackMode := False\<rparr>,
          report raw True hCalc (snapToRealisticValue hCalc)
            (if inFallbackMode s then Some Normal_Restored else None))"
  using assms by (cases s) (simp add: loop_def Let_def ema_update_def)

lemma loop_valid_degenerate:
  assumes "validateReading cfg s raw" and "SENSOR_RAW_MIN cfg = SENSOR_RAW_MAX cfg"
  shows "loop cfg s raw = Inl DivisionByZero"
  using assms by (simp add: loop_def Let_def heightMapping_degenerate)

lemma loop_valid_range:
  assumes "validateReading cfg s raw" and "SENSOR_RAW_MIN cfg < SENSOR_RAW_MAX cfg"
  shows "\<exists>hCalc. 0 \<le> hCalc \<and> hCalc \<le> H_MAX_METERS \<and>
     loop cfg s raw =
     Inr (s\<lparr>filteredReading := EMA_ALPHA * real_of_int raw + (1 - EMA_ALPHA) * filteredReading s,
             lastValidHeight := snapToRealisticValue hCalc,
             failureCount := 0, inFallbackMode := False\<rparr>,
          report raw True hCalc (snapToRealisticValue hCalc)
            (if inFallbackMode s then Some Normal_Restored else None))"
proof -
  from heightMapping_range[OF assms(2), of "filteredReading (ema_update raw s)"]
  obtain h where h: "heightMapping cfg (filteredReading (ema_update raw s)) = Inr h"
    "0 \<le> h" "h \<le> H_MAX_METERS" by blast
  from loop_valid[OF assms(1) h(1)] h(2,3) show ?thesis by blast
qed


subsection \<open>Streaks of invalid readings\<close>

lemma cycles_invalid:
  assumes "\<forall>raw\<in>set raws. \<not> validateReading cfg s raw"
    and "failureCount s = of_nat k" and "inFallbackMode s \<longleftrightarrow> 5 \<le> k"
  shows "cycles cfg s raws =
     Inr (s\<lparr>failureCount := of_nat (k + length raws), inFallbackMode := (5 \<le> k + length raws)\<rparr>,
          map (\<lambda>(i, raw). report raw False (lastValidHeight s) (lastValidHeight s)
                 (if Suc i = 5 then Some Fallback_Activated else None))
              (enumerate k raws))"
  using assms
proof (induction raws arbitrary: s k)
  case Nil
  then show ?case by (cases s) simp
next
  case (Cons raw raws)
  let ?s1 = "s\<lparr>failureCount := of_nat (Suc k), inFallbackMode := (5 \<le> Suc k)\<rparr>"
  have step: "loop cfg s raw =
     Inr (?s1, report raw False (lastValidHeight s) (lastValidHeight s)
            (if Suc k = 5 then Some Fallback_Activated else None))"
    using Cons.prems by (intro loop_invalid) simp_all
  have inv: "\<forall>r\<in>set raws. \<not> validateReading cfg ?s1 r"
    using Cons.prems(1) validateReading_filtered[of ?s1 s cfg] by simp
  have rest: "cycles cfg ?s1 raws =
     Inr (?s1\<lparr>failureCount := of_nat (Suc k + length raws),
              inFallbackMode := (5 \<le> Suc k + length raws)\<rparr>,
          map (\<lambda>(i, raw). report raw False (lastValidHeight ?s1) (lastValidHeight ?s1)
                 (if Suc i = 5 then Some Fallback_Activated else None))
              (enumerate (Suc k) raws))"
    using inv by (intro Cons.IH) simp_all
  have "cycles cfg s (raw # raws) =
     Inr (?s1\<lparr>failureCount := of_nat (Suc k + length raws),
              inFallbackMode := (5 \<le> Suc k + length raws)\<rparr>,
          report raw False (lastValidHeight s) (lastValidHeight s)
            (if Suc k = 5 then Some Fallback_Activated else None) #
          map (\<lambda>(i, raw). report raw False (lastValidHeight ?s1) (lastValidHeight ?s1)
                 (if Suc i = 5 then Some Fallback_Activated else None))
              (enumerate (Suc k) raws))"
    by (simp only: cycles.simps step rest sum.case prod.case)
  also have "\<dots> =
     Inr (s\<lparr>failureCount := of_nat (k + length (raw # raws)),
            inFallbackMode := (5 \<le> k + length (raw # raws))\<rparr>,
          map (\<lambda>(i, raw). report raw False (lastValidHeight s) (lastValidHeight s)
                 (if Suc i = 5 then Some Fallback_Activated else None))
              (enumerate k (raw # raws)))"
    by simp
  finally show ?case .
qed

lemma cycles_invalid_any:
  assumes "\<forall>raw\<in>set raws. \<not> validateReading cfg s raw"
  shows "\<exists>s' frs. cycles cfg s raws = Inr (s', frs) \<and> length frs = length raws \<and>
          lastValidHeight s' = lastValidHeight s \<and> filteredReading s' = filteredReading s \<and>
          (\<forall>fr\<in>set frs. \<not> isValid fr \<and> heightSnapped fr = lastValidHeight s \<and>
                          heightCalculated fr = lastValidHeight s)"
  using assms
proof (induction raws arbitrary: s)
  case Nil
  then show ?case by simp
next
  case (Cons raw raws)
  from Cons.prems have "\<not> validateReading cfg s raw" by simp
  from loop_invalid_any[OF this] obtain s1 msg where
    step: "loop cfg s raw = Inr (s1, report raw False (lastValidHeight s) (lastValidHeight s) msg)"
    and keep: "lastValidHeight s1 = lastValidHeight s" "filteredReading s1 = filteredReading s"
    by blast
  have "\<forall>r\<in>set raws. \<not> validateReading cfg s1 r"
    using Cons.prems validateReading_filtered[OF keep(2), of cfg] by simp
  from Cons.IH[OF this] obtain s2 frs where
    rest: "cycles cfg s1 raws = Inr (s2, frs)" and len: "length frs = length raws"
    and keep2: "lastValidHeight s2 = lastValidHeight s1" "filteredReading s2 = filteredReading s1"
    and frs: "\<forall>fr\<in>set frs. \<not> isValid fr \<and> heightSnapped fr = lastValidHeight s1 \<and>
                          heightCalculated fr = lastValidHeight s1"
    by blast
  have "cycles cfg s (raw # raws) =
          Inr (s2, report raw False (lastValidHeight s) (lastValidHeight s) msg # frs)"
    by (simp only: cycles.simps step rest sum.case prod.case)
  then show ?case using len keep keep2 frs by simp
qed

subsection \<open>The held height stays on the lattice\<close>

lemma reachable_lastValidHeight:
  assumes "reachable cfg s" and "SENSOR_RAW_MIN cfg < SENSOR_RAW_MAX cfg"
  shows "lastValidHeight s \<in> set HEIGHT_STEPS"
  using assms
proof (induction rule: reachable.induct)
  case (start initialValue sensor)
  show ?case by (simp add: initializeSystem_other globals0_def zero_in_lattice)
next
  case (cycle s raw s' fr)
  show ?case
  proof (cases "validateReading cfg s raw")
    case True
    from loop_valid_range[OF True cycle.prems] cycle.hyps(2) show ?thesis
      by (auto simp add: snap_clamped_in_lattice)
  next
    case False
    from loop_invalid_any[OF False] cycle.hyps(2) cycle.IH[OF cycle.prems] show ?thesis
      by auto
  qed
qed

lemma cycle_heights:
  assumes "lastValidHeight s \<in> set HEIGHT_STEPS" and "SENSOR_RAW_MIN cfg < SENSOR_RAW_MAX cfg"
  shows "\<exists>s' fr. loop cfg s raw = Inr (s', fr) \<and>
       heightSnapped fr \<in> set HEIGHT_STEPS \<and> lastValidHeight s' \<in> set HEIGHT_STEPS \<and>
       isValid fr = validateReading cfg s raw \<and>
       (validateReading cfg s raw \<longrightarrow>
          0 \<le> heightCalculated fr \<and> heightCalculated fr \<le> H_MAX_METERS \<and>
          heightSnapped fr = snapToRealisticValue (heightCalculated fr) \<and>
          lastValidHeight s' = heightSnapped fr) \<and>
       (\<not> validateReading cfg s raw \<longrightarrow>
          heightSnapped fr = lastValidHeight s \<and> heightCalculated fr = lastValidHeight s \<and>
          lastValidHeight s' = lastValidHeight s)"
proof (cases "validateReading cfg s raw")
  case True
  from loop_valid_range[OF True assms(2)] show ?thesis
    using True by (auto simp add: snap_clamped_in_lattice)
next
  case False
  from loop_invalid_any[OF False] assms(1) show ?thesis
    using False by auto
qed

section \<open>Claims\<close>

subsection \<open>Fallback controller\<close>

text \<open>
  Claim C1. Starting from a state with \<open>failureCount = 0\<close> and \<open>inFallbackMode = false\<close>,
  a streak of invalid readings leaves the controller in fallback mode exactly when the
  streak has reached \<open>MAX_FAILURES = 5\<close> readings: the mode message is printed in the
  fifth cycle of the streak and in no other, and the counter equals the length of the
  streak. A valid reading, in any state, sets the counter to 0 and clears the fallback
  flag. The readings of the streak are invalid for the state at its start; as an invalid
  cycle does not touch the filter, that is their verdict in their own cycle too, and
  every frame of the streak carries \<open>isValid = false\<close>.
\<close>

theorem fallback_on_fifth_failure:
  "(failureCount s = 0 \<and> \<not> inFallbackMode s \<and>
      (\<forall>raw\<in>set raws. \<not> validateReading firmware_config s raw) \<longrightarrow>
     (\<exists>s' frs. cycles firmware_config s raws = Inr (s', frs) \<and> length frs = length raws \<and>
        (inFallbackMode s' \<longleftrightarrow> unat MAX_FAILURES \<le> length raws) \<and>
        failureCount s' = of_nat (length raws) \<and>
        (\<forall>i<length raws. \<not> isValid (frs ! i) \<and>
           notice (frs ! i) =
             (if Suc i = unat MAX_FAILURES then Some Fallback_Activated else None)))) \<and>
   (validateReading firmware_config t raw \<longrightarrow>
     (\<exists>t' fr. loop firmware_config t raw = Inr (t', fr) \<and>
        failureCount t' = 0 \<and> \<not> inFallbackMode t'))"
proof (intro conjI impI)
  assume a: "failureCount s = 0 \<and> \<not> inFallbackMode s \<and>
      (\<forall>raw\<in>set raws. \<not> validateReading firmware_config s raw)"
  have run: "cycles firmware_config s raws =
     Inr (s\<lparr>failureCount := of_nat (0 + length raws), inFallbackMode := (5 \<le> 0 + length raws)\<rparr>,
          map (\<lambda>(i, raw). report raw False (lastValidHeight s) (lastValidHeight s)
                 (if Suc i = 5 then Some Fallback_Activated else None))
              (enumerate 0 raws))"
    using a by (intro cycles_invalid) simp_all
  show "\<exists>s' frs. cycles firmware_config s raws = Inr (s', frs) \<and> length frs = length raws \<and>
        (inFallbackMode s' \<longleftrightarrow> unat MAX_FAILURES \<le> length raws) \<and>
        failureCount s' = of_nat (length raws) \<and>
        (\<forall>i<length raws. \<not> isValid (frs ! i) \<and>
           notice (frs ! i) =
             (if Suc i = unat MAX_FAILURES then Some Fallback_Activated else None))"
    unfolding run by (auto simp add: MAX_FAILURES_def nth_enumerate_eq)
next
  assume "validateReading firmware_config t raw"
  from loop_valid_range[OF this firmware_range]
  show "\<exists>t' fr. loop firmware_config t raw = Inr (t', fr) \<and>
        failureCount t' = 0 \<and> \<not> inFallbackMode t'"
    by auto
qed

text \<open>Five sentinel readings \<open>-1\<close> after start-up: fallback on the fifth, not on the
  fourth; and the reading 600 is valid and resets the controller.\<close>

theorem fallback_on_fifth_failure_witness:
  "failureCount globals0 = 0 \<and> \<not> inFallbackMode globals0 \<and>
   \<not> validateReading firmware_config globals0 (-1) \<and>
   (\<exists>s' frs. cycles firmware_config globals0 [-1, -1, -1, -1, -1] = Inr (s', frs) \<and>
      inFallbackMode s' \<and>
      map notice frs = [None, None, None, None, Some Fallback_Activated]) \<and>
   (\<exists>s' frs. cycles firmware_config globals0 [-1, -1, -1, -1] = Inr (s', frs) \<and>
      \<not> inFallbackMode s') \<and>
   validateReading firmware_config globals0 600 \<and>
   (\<exists>t' fr. loop firmware_config globals0 600 = Inr (t', fr) \<and>
      failureCount t' = 0 \<and> \<not> inFallbackMode t')"
proof -
  have g: "failureCount globals0 = 0" "\<not> inFallbackMode globals0"
    by (simp_all add: globals0_def)
  have inv: "\<not> validateReading firmware_config globals0 (-1)"
    by (simp add: validateReading_def EXTREME_MIN_def)
  have ok: "validateReading firmware_config globals0 600"
    by (simp add: validateReading_def globals0_def EXTREME_MIN_def EXTREME_MAX_def)
  from fallback_on_fifth_failure[of globals0 "[-1, -1, -1, -1, -1]" globals0 600] g inv ok
  obtain s5 frs5 where five: "cycles firmware_config globals0 [-1, -1, -1, -1, -1] = Inr (s5, frs5)"
    "length frs5 = 5" "inFallbackMode s5"
    "\<forall>i<5. notice (frs5 ! i) = (if Suc i = 5 then Some Fallback_Activated else None)"
    by (auto simp add: MAX_FAILURES_def)
  have n5: "map notice frs5 = [None, None, None, None, Some Fallback_Activated]"
    using five(2,4) by (auto simp add: list_eq_iff_nth_eq less_Suc_eq numeral_eq_Suc)
  from fallback_on_fifth_failure[of globals0 "[-1, -1, -1, -1]" globals0 600] g inv
  have four: "\<exists>s' frs. cycles firmware_config globals0 [-1, -1, -1, -1] = Inr (s', frs) \<and>
      \<not> inFallbackMode s'"
    by (auto simp add: MAX_FAILURES_def)
  from fallback_on_fifth_failure[of globals0 "[]" globals0 600] ok
  have v: "\<exists>t' fr. loop firmware_config globals0 600 = Inr (t', fr) \<and>
      failureCount t' = 0 \<and> \<not> inFallbackMode t'" by blast
  from g inv ok five(1,3) n5 four v show ?thesis by simp
qed

text \<open>
  Claim C2. In every cycle whose reading is invalid, whether or not fallback mode is
  active, the reported \<open>heightSnapped\<close> and \<open>heightCalculated\<close> both equal
  \<open>lastValidHeight\<close>, and \<open>lastValidHeight\<close> is the same after any streak of invalid
  cycles as before it. \<open>lastValidHeight\<close> is the snapped height a valid cycle stored.
\<close>

theorem invalid_cycle_holds_last_height:
  "((\<forall>raw\<in>set raws. \<not> validateReading firmware_config s raw) \<longrightarrow>
      (\<exists>s' frs. cycles firmware_config s raws = Inr (s', frs) \<and> length frs = length raws \<and>
         lastValidHeight s' = lastValidHeight s \<and>
         (\<forall>fr\<in>set frs. \<not> isValid fr \<and> heightSnapped fr = lastValidHeight s \<and>
                         heightCalculated fr = lastValidHeight s))) \<and>
   (validateReading firmware_config t raw \<longrightarrow>
      (\<exists>t' fr. loop firmware_config t raw = Inr (t', fr) \<and> isValid fr \<and>
         lastValidHeight t' = heightSnapped fr))"
proof (intro conjI impI)
  assume "\<forall>raw\<in>set raws. \<not> validateReading firmware_config s raw"
  from cycles_invalid_any[OF this]
  show "\<exists>s' frs. cycles firmware_config s raws = Inr (s', frs) \<and> length frs = length raws \<and>
         lastValidHeight s' = lastValidHeight s \<and>
         (\<forall>fr\<in>set frs. \<not> isValid fr \<and> heightSnapped fr = lastValidHeight s \<and>
                         heightCalculated fr = lastValidHeight s)"
    by blast
next
  assume "validateReading firmware_config t raw"
  from loop_valid_range[OF this firmware_range]
  show "\<exists>t' fr. loop firmware_config t raw = Inr (t', fr) \<and> isValid fr \<and>
         lastValidHeight t' = heightSnapped fr"
    by auto
qed

text \<open>A sentinel and an out-of-envelope reading with held height 0.03, and a valid
  reading that stores its snapped height.\<close>

theorem invalid_cycle_holds_last_height_witness:
  "\<not> validateReading firmware_config (globals0\<lparr>lastValidHeight := 0.03\<rparr>) (-1) \<and>
   \<not> validateReading firmware_config (globals0\<lparr>lastValidHeight := 0.03\<rparr>) 20000 \<and>
   (\<exists>s' frs. cycles firmware_config (globals0\<lparr>lastValidHeight := 0.03\<rparr>) [-1, 20000]
                = Inr (s', frs) \<and>
      lastValidHeight s' = 0.03 \<and> map heightSnapped frs = [0.03, 0.03] \<and>
      map heightCalculated frs = [0.03, 0.03]) \<and>
   validateReading firmware_config globals0 600 \<and>
   (\<exists>t' fr. loop firmware_config globals0 600 = Inr (t', fr) \<and>
      lastValidHeight t' = heightSnapped fr)"
proof -
  let ?s = "globals0\<lparr>lastValidHeight := 0.03\<rparr>"
  have inv: "\<not> validateReading firmware_config ?s (-1)"
    "\<not> validateReading firmware_config ?s 20000"
    by (simp_all add: validateReading_def EXTREME_MIN_def EXTREME_MAX_def)
  have ok: "validateReading firmware_config globals0 600"
    by (simp add: validateReading_def globals0_def EXTREME_MIN_def EXTREME_MAX_def)
  from invalid_cycle_holds_last_height[of "[-1, 20000]" ?s globals0 600] inv
  obtain s' frs where run: "cycles firmware_config ?s [-1, 20000] = Inr (s', frs)"
    "length frs = 2" "lastValidHeight s' = 0.03"
    "\<forall>fr\<in>set frs. heightSnapped fr = 0.03 \<and> heightCalculated fr = 0.03"
    by auto
  have m: "map heightSnapped frs = [0.03, 0.03]" "map heightCalculated frs = [0.03, 0.03]"
    using run(2,4) by (auto simp add: list_eq_iff_nth_eq nth_Cons')
  from invalid_cycle_holds_last_height[of "[]" globals0 globals0 600] ok
  have v: "\<exists>t' fr. loop firmware_config globals0 600 = Inr (t', fr) \<and>
      lastValidHeight t' = heightSnapped fr" by blast
  from inv ok run(1,3) m v show ?thesis by simp
qed

subsection \<open>Reading validator\<close>

text \<open>
  Claim C3, as stated: \<open>validateReading(raw)\<close> is true exactly when \<open>raw\<close> lies in
  \<open>[EXTREME_MIN, EXTREME_MAX]\<close> and \<open>|raw - filteredReading|\<close> is at most half the
  calibrated span. It fails in two ways. With \<open>filteredReading = 0\<close>, the value of the
  global when \<open>initializeSystem\<close> validates its first reading, the jump check is skipped
  and 15000 is accepted. With \<open>filteredReading = 5000.5\<close> the reading 640 is accepted,
  since the check compares with the truncated value 5000, although it is 4360.5 away.
\<close>

theorem validateReading_not_plain_distance:
  "\<not> (validateReading firmware_config globals0 15000 \<longleftrightarrow>
        (EXTREME_MIN \<le> 15000 \<and> 15000 \<le> EXTREME_MAX \<and>
         \<bar>real_of_int 15000 - filteredReading globals0\<bar>
           \<le> 0.5 * real_of_int (SENSOR_RAW_MAX firmware_config - SENSOR_RAW_MIN firmware_config))) \<and>
   \<not> (validateReading firmware_config (globals0\<lparr>filteredReading := 5000.5\<rparr>) 640 \<longleftrightarrow>
        (EXTREME_MIN \<le> 640 \<and> 640 \<le> EXTREME_MAX \<and>
         \<bar>real_of_int 640 - filteredReading (globals0\<lparr>filteredReading := 5000.5\<rparr>)\<bar>
           \<le> 0.5 * real_of_int (SENSOR_RAW_MAX firmware_config - SENSOR_RAW_MIN firmware_config)))"
  by (simp add: validateReading_def globals0_def firmware_config_def EXTREME_MIN_def
      EXTREME_MAX_def abs_macro_def long_of_float_def)

text \<open>
  Claim C3, amended: \<open>validateReading(raw)\<close> is true exactly when \<open>raw\<close> lies in
  \<open>[EXTREME_MIN, EXTREME_MAX]\<close> and, if \<open>filteredReading > 0\<close>, the distance of \<open>raw\<close>
  from the filtered value truncated to a \<open>long\<close> is at most half the calibrated span
  truncated to a \<open>long\<close>, which is 4360 for the configured range; with
  \<open>filteredReading \<le> 0\<close> only the bounds are checked.
\<close>

theorem validateReading_verdict:
  "(validateReading cfg s raw \<longleftrightarrow>
      EXTREME_MIN \<le> raw \<and> raw \<le> EXTREME_MAX \<and>
      (filteredReading s > 0 \<longrightarrow>
         \<bar>raw - long_of_float (filteredReading s)\<bar>
           \<le> long_of_float (real_of_int (SENSOR_RAW_MAX cfg - SENSOR_RAW_MIN cfg) * 0.5))) \<and>
   long_of_float
     (real_of_int (SENSOR_RAW_MAX firmware_config - SENSOR_RAW_MIN firmware_config) * 0.5) = 4360"
proof (intro conjI)
  show "validateReading cfg s raw \<longleftrightarrow>
      EXTREME_MIN \<le> raw \<and> raw \<le> EXTREME_MAX \<and>
      (filteredReading s > 0 \<longrightarrow>
         \<bar>raw - long_of_float (filteredReading s)\<bar>
           \<le> long_of_float (real_of_int (SENSOR_RAW_MAX cfg - SENSOR_RAW_MIN cfg) * 0.5))"
    by (auto simp add: validateReading_def Let_def abs_macro_def)
next
  show "long_of_float
     (real_of_int (SENSOR_RAW_MAX firmware_config - SENSOR_RAW_MIN firmware_config) * 0.5) = 4360"
    by (simp add: long_of_float_def firmware_config_def)
qed

theorem validateReading_verdict_witness:
  "validateReading firmware_config (globals0\<lparr>filteredReading := 5000.5\<rparr>) 640 \<and>
   \<not> validateReading firmware_config (globals0\<lparr>filteredReading := 5000.5\<rparr>) 639 \<and>
   validateReading firmware_config globals0 15000 \<and>
   \<not> validateReading firmware_config globals0 15001"
  using validateReading_verdict[of firmware_config "globals0\<lparr>filteredReading := 5000.5\<rparr>" 640]
    validateReading_verdict[of firmware_config "globals0\<lparr>filteredReading := 5000.5\<rparr>" 639]
    validateReading_verdict[of firmware_config globals0 15000]
    validateReading_verdict[of firmware_config globals0 15001]
  by (simp add: EXTREME_MIN_def EXTREME_MAX_def long_of_float_def globals0_def)

subsection \<open>Snapping table\<close>

text \<open>
  Claim C4, as stated: for every input height \<open>h\<close>, \<open>snapToRealisticValue(h)\<close> is an
  element of \<open>HEIGHT_STEPS\<close>. The search starts from \<open>minDifference = 1000.0\<close> and
  \<open>nearestValue = h\<close>, so an input at distance 1000 or more from every entry comes back
  unchanged: 2000 is returned for 2000.
\<close>

theorem snap_far_input_unchanged:
  "snapToRealisticValue 2000 = 2000 \<and> 2000 \<notin> set HEIGHT_STEPS"
  by (simp add: snapToRealisticValue_def HEIGHT_STEPS_def abs_macro_def)

text \<open>
  Claim C4, amended: for every input height \<open>h\<close> that is less than 1000 away from some
  entry of \<open>HEIGHT_STEPS\<close>, \<open>snapToRealisticValue(h)\<close> is an element of the lattice, no
  lattice element is closer to \<open>h\<close>, and it is the entry of lowest index at that minimal
  distance: every earlier entry is strictly farther from \<open>h\<close>.
\<close>

theorem snap_nearest_lattice_entry:
  "(\<exists>v\<in>set HEIGHT_STEPS. \<bar>h - v\<bar> < 1000) \<longrightarrow>
     snapToRealisticValue h \<in> set HEIGHT_STEPS \<and>
     (\<forall>v\<in>set HEIGHT_STEPS. \<bar>snapToRealisticValue h - h\<bar> \<le> \<bar>v - h\<bar>) \<and>
     (\<exists>i<HEIGHT_STEPS_COUNT. snapToRealisticValue h = HEIGHT_STEPS ! i \<and>
        (\<forall>j<i. \<bar>HEIGHT_STEPS ! i - h\<bar> < \<bar>HEIGHT_STEPS ! j - h\<bar>))"
proof
  assume "\<exists>v\<in>set HEIGHT_STEPS. \<bar>h - v\<bar> < 1000"
  from snap_lattice[OF this] obtain i where i: "i < length HEIGHT_STEPS"
    "snapToRealisticValue h = HEIGHT_STEPS ! i"
    "\<forall>j<i. \<bar>h - HEIGHT_STEPS ! i\<bar> < \<bar>h - HEIGHT_STEPS ! j\<bar>"
    "\<forall>j<length HEIGHT_STEPS. \<bar>h - HEIGHT_STEPS ! i\<bar> \<le> \<bar>h - HEIGHT_STEPS ! j\<bar>"
    by blast
  have 1: "snapToRealisticValue h \<in> set HEIGHT_STEPS" using i(1,2) by simp
  have 2: "\<forall>v\<in>set HEIGHT_STEPS. \<bar>snapToRealisticValue h - h\<bar> \<le> \<bar>v - h\<bar>"
    using i(2,4) by (auto simp: in_set_conv_nth abs_minus_commute)
  have 3: "\<exists>i<HEIGHT_STEPS_COUNT. snapToRealisticValue h = HEIGHT_STEPS ! i \<and>
        (\<forall>j<i. \<bar>HEIGHT_STEPS ! i - h\<bar> < \<bar>HEIGHT_STEPS ! j - h\<bar>)"
    using i(1,2,3) by (auto simp: HEIGHT_STEPS_COUNT_def abs_minus_commute)
  from 1 2 3 show "snapToRealisticValue h \<in> set HEIGHT_STEPS \<and>
     (\<forall>v\<in>set HEIGHT_STEPS. \<bar>snapToRealisticValue h - h\<bar> \<le> \<bar>v - h\<bar>) \<and>
     (\<exists>i<HEIGHT_STEPS_COUNT. snapToRealisticValue h = HEIGHT_STEPS ! i \<and>
        (\<forall>j<i. \<bar>HEIGHT_STEPS ! i - h\<bar> < \<bar>HEIGHT_STEPS ! j - h\<bar>))" by blast
qed

text \<open>The midpoint 0.005 of the first two entries is snapped to the first; 0.143 is
  snapped to the last entry.\<close>

theorem snap_nearest_lattice_entry_witness:
  "snapToRealisticValue 0.005 \<in> set HEIGHT_STEPS \<and> snapToRealisticValue 0.005 = 0 \<and>
   snapToRealisticValue 0.143 \<in> set HEIGHT_STEPS \<and> snapToRealisticValue 0.143 = 0.145"
  using snap_nearest_lattice_entry[of "0.005"] snap_nearest_lattice_entry[of "0.143"]
  by (simp add: snapToRealisticValue_def HEIGHT_STEPS_def abs_macro_def)

subsection \<open>Flow model\<close>

text \<open>
  Claim C5. \<open>calculateFlowRate(h)\<close> is exactly 0 for every \<open>h < MIN_FLOW_HEIGHT\<close>, and
  is monotonically non-decreasing in \<open>h\<close> on \<open>h \<ge> MIN_FLOW_HEIGHT\<close>.
\<close>

theorem calculateFlowRate_zero_and_monotone:
  "(h < MIN_FLOW_HEIGHT \<longrightarrow> calculateFlowRate h = 0) \<and>
   (MIN_FLOW_HEIGHT \<le> h1 \<and> h1 \<le> h2 \<longrightarrow> calculateFlowRate h1 \<le> calculateFlowRate h2)"
proof (intro conjI impI)
  assume "h < MIN_FLOW_HEIGHT"
  then show "calculateFlowRate h = 0" by (simp add: calculateFlowRate_def)
next
  assume a: "MIN_FLOW_HEIGHT \<le> h1 \<and> h1 \<le> h2"
  have pos: "0 < MIN_FLOW_HEIGHT" by (simp add: MIN_FLOW_HEIGHT_def)
  from a pos have h1: "0 \<le> h1" and h2: "0 \<le> h2" by linarith+
  have le: "DENSITY_DIFF * GRAVITY * h1 \<le> DENSITY_DIFF * GRAVITY * h2"
    using DENSITY_GRAVITY_pos a by (intro mult_left_mono) simp_all
  have "FLOW_CONSTANT * sqrt (DENSITY_DIFF * GRAVITY * h1)
          \<le> FLOW_CONSTANT * sqrt (DENSITY_DIFF * GRAVITY * h2)"
    using le FLOW_CONSTANT_nonneg by (simp add: mult_left_mono)
  then show "calculateFlowRate h1 \<le> calculateFlowRate h2"
    using a by (simp add: calculateFlowRate_unclamped[OF h1] calculateFlowRate_unclamped[OF h2])
qed

theorem calculateFlowRate_zero_and_monotone_witness:
  "calculateFlowRate 0.0009 = 0 \<and> calculateFlowRate 0.01 \<le> calculateFlowRate 0.02"
  using calculateFlowRate_zero_and_monotone[of "0.0009" "0.01" "0.02"]
  by (simp add: MIN_FLOW_HEIGHT_def)

subsection \<open>Height mapper\<close>

text \<open>
  Claim C6. The height mapping of \<open>loop\<close> (clamp into the calibrated range, normalise,
  multiply by \<open>H_MAX_METERS\<close>) gives 0.000 for the filtered value 510 and 0.145 for the
  filtered value 9230.
\<close>

theorem heightMapping_endpoints:
  "heightMapping firmware_config 510 = Inr 0 \<and> heightMapping firmware_config 9230 = Inr 0.145"
  by (simp add: heightMapping_def firmware_config_def constrain_def float_div_def
      H_MAX_METERS_def)

subsection \<open>Smoothing filter\<close>

text \<open>
  Claim C7, as stated: the filter is held on every invalid reading, also during
  stabilisation. \<open>stabilizeFilter\<close> tests only \<open>reading >= 0\<close>: with the filter at 4870
  (the midpoint default) the reading 20000, which \<open>validateReading\<close> rejects, moves the
  filter to 6383.
\<close>

theorem stabilizeFilter_applies_rejected_reading:
  "\<not> validateReading firmware_config (globals0\<lparr>filteredReading := 4870\<rparr>) 20000 \<and>
   filteredReading (stabilizeFilter (Suc 0) (\<lambda>i. 20000) (globals0\<lparr>filteredReading := 4870\<rparr>))
     = 6383 \<and>
   filteredReading (stabilizeFilter (Suc 0) (\<lambda>i. 20000) (globals0\<lparr>filteredReading := 4870\<rparr>))
     \<noteq> filteredReading (globals0\<lparr>filteredReading := 4870\<rparr>)"
  by (simp add: validateReading_def EXTREME_MIN_def EXTREME_MAX_def stabilizeFilter_def
      ema_update_def EMA_ALPHA_def)

text \<open>
  Claim C7, amended: in every cycle of the main loop whose reading is invalid,
  \<open>filteredReading\<close> is left unchanged, and in a valid cycle it becomes
  \<open>alpha * raw + (1 - alpha) * filtered_prev\<close>. During stabilisation each iteration
  applies that update exactly when its reading is not negative, whatever
  \<open>validateReading\<close> would say of it; the filter is held over readings that are all
  negative.
\<close>

theorem filter_held_on_rejected_reading:
  "(\<not> validateReading firmware_config s raw \<longrightarrow>
      (\<exists>s' fr. loop firmware_config s raw = Inr (s', fr) \<and>
         filteredReading s' = filteredReading s)) \<and>
   (validateReading firmware_config s raw \<longrightarrow>
      (\<exists>s' fr. loop firmware_config s raw = Inr (s', fr) \<and>
         filteredReading s' =
           EMA_ALPHA * real_of_int raw + (1 - EMA_ALPHA) * filteredReading s)) \<and>
   stabilizeFilter (Suc n) sensor s =
     (if sensor n \<ge> 0 then ema_update (sensor n) (stabilizeFilter n sensor s)
      else stabilizeFilter n sensor s) \<and>
   ((\<forall>i<n. sensor i < 0) \<longrightarrow> filteredReading (stabilizeFilter n sensor s) = filteredReading s)"
proof (intro conjI impI)
  assume "\<not> validateReading firmware_config s raw"
  from loop_invalid_any[OF this]
  show "\<exists>s' fr. loop firmware_config s raw = Inr (s', fr) \<and>
         filteredReading s' = filteredReading s"
    by blast
next
  assume "validateReading firmware_config s raw"
  from loop_valid_range[OF this firmware_range]
  show "\<exists>s' fr. loop firmware_config s raw = Inr (s', fr) \<and>
         filteredReading s' =
           EMA_ALPHA * real_of_int raw + (1 - EMA_ALPHA) * filteredReading s"
    by auto
next
  show "stabilizeFilter (Suc n) sensor s =
     (if sensor n \<ge> 0 then ema_update (sensor n) (stabilizeFilter n sensor s)
      else stabilizeFilter n sensor s)"
    by (rule stabilizeFilter_Suc)
next
  assume "\<forall>i<n. sensor i < 0"
  then show "filteredReading (stabilizeFilter n sensor s) = filteredReading s"
    by (simp add: stabilizeFilter_hold)
qed

text \<open>From the filter value 4870: the sentinel \<open>-2\<close> is rejected and holds the filter,
  5000 is accepted and moves it to 4883, three sentinel reads of the stabilisation hold
  it.\<close>

theorem filter_held_on_rejected_reading_witness:
  "\<not> validateReading firmware_config (globals0\<lparr>filteredReading := 4870\<rparr>) (-2) \<and>
   (\<exists>s' fr. loop firmware_config (globals0\<lparr>filteredReading := 4870\<rparr>) (-2) = Inr (s', fr) \<and>
      filteredReading s' = 4870) \<and>
   validateReading firmware_config (globals0\<lparr>filteredReading := 4870\<rparr>) 5000 \<and>
   (\<exists>s' fr. loop firmware_config (globals0\<lparr>filteredReading := 4870\<rparr>) 5000 = Inr (s', fr) \<and>
      filteredReading s' = 4883) \<and>
   filteredReading (stabilizeFilter 3 (\<lambda>i. - 2) (globals0\<lparr>filteredReading := 4870\<rparr>)) = 4870"
  using filter_held_on_rejected_reading[of "globals0\<lparr>filteredReading := 4870\<rparr>" "-2" 3 "\<lambda>i. - 2"]
    filter_held_on_rejected_reading[of "globals0\<lparr>filteredReading := 4870\<rparr>" 5000 0 "\<lambda>i. - 2"]
  by (simp add: validateReading_def EXTREME_MIN_def EXTREME_MAX_def abs_macro_def
      long_of_float_def firmware_config_def EMA_ALPHA_def)

subsection \<open>Calibration range\<close>

text \<open>
  Claim C8, as stated: with \<open>SENSOR_RAW_MAX == SENSOR_RAW_MIN\<close> the program detects the
  degenerate range at start-up and does not reach the division of the height mapping.
  \<open>initializeSystem\<close> makes no such check. With both constants 510 and a sensor that
  returns 0 during start-up, the filter is left at 0; the reading 510 of the first cycle
  of the main loop is valid, and the cycle divides by
  \<open>(float)(SENSOR_RAW_MAX - SENSOR_RAW_MIN) = 0\<close>.
\<close>

theorem degenerate_range_reaches_division:
  "loop \<lparr>SENSOR_RAW_MIN = 510, SENSOR_RAW_MAX = 510\<rparr>
        (initializeSystem \<lparr>SENSOR_RAW_MIN = 510, SENSOR_RAW_MAX = 510\<rparr> 0 (\<lambda>i. 0) globals0)
        510 = Inl DivisionByZero"
proof -
  let ?cfg = "\<lparr>SENSOR_RAW_MIN = 510, SENSOR_RAW_MAX = 510\<rparr>"
  have v0: "validateReading ?cfg globals0 0"
    by (simp add: validateReading_def globals0_def EXTREME_MIN_def EXTREME_MAX_def)
  have f: "filteredReading (initializeSystem ?cfg 0 (\<lambda>i. 0) globals0) = 0"
    using v0 stabilizeFilter_steady[of "globals0\<lparr>filteredReading := 0\<rparr>" 0 20]
    by (simp add: initializeSystem_def Let_def)
  have "validateReading ?cfg (initializeSystem ?cfg 0 (\<lambda>i. 0) globals0) 510"
    by (simp add: validateReading_def f EXTREME_MIN_def EXTREME_MAX_def)
  then show ?thesis by (simp add: loop_valid_degenerate)
qed

text \<open>
  Claim C8, amended: the program does not check the calibration range at start-up. For
  every configuration with \<open>rawMin < rawMax\<close> every cycle of the main loop completes, the
  division being well-defined; with \<open>rawMin = rawMax\<close> every cycle whose reading is valid
  reaches the division by zero.
\<close>

theorem division_defined_for_proper_range:
  "(SENSOR_RAW_MIN cfg < SENSOR_RAW_MAX cfg \<longrightarrow> (\<exists>s' fr. loop cfg s raw = Inr (s', fr))) \<and>
   (SENSOR_RAW_MIN cfg = SENSOR_RAW_MAX cfg \<and> validateReading cfg s raw \<longrightarrow>
      loop cfg s raw = Inl DivisionByZero)"
proof (intro conjI impI)
  assume r: "SENSOR_RAW_MIN cfg < SENSOR_RAW_MAX cfg"
  show "\<exists>s' fr. loop cfg s raw = Inr (s', fr)"
  proof (cases "validateReading cfg s raw")
    case True
    from loop_valid_range[OF True r] show ?thesis by blast
  next
    case False
    from loop_invalid_any[OF False] show ?thesis by blast
  qed
next
  assume "SENSOR_RAW_MIN cfg = SENSOR_RAW_MAX cfg \<and> validateReading cfg s raw"
  then show "loop cfg s raw = Inl DivisionByZero"
    by (simp add: loop_valid_degenerate)
qed

theorem division_defined_for_proper_range_witness:
  "SENSOR_RAW_MIN firmware_config < SENSOR_RAW_MAX firmware_config \<and>
   (\<exists>s' fr. loop firmware_config globals0 600 = Inr (s', fr)) \<and>
   validateReading \<lparr>SENSOR_RAW_MIN = 510, SENSOR_RAW_MAX = 510\<rparr> globals0 510 \<and>
   loop \<lparr>SENSOR_RAW_MIN = 510, SENSOR_RAW_MAX = 510\<rparr> globals0 510 = Inl DivisionByZero"
  using division_defined_for_proper_range[of firmware_config globals0 600]
    division_defined_for_proper_range[of "\<lparr>SENSOR_RAW_MIN = 510, SENSOR_RAW_MAX = 510\<rparr>" globals0 510]
  by (simp add: firmware_config_def validateReading_def globals0_def EXTREME_MIN_def
      EXTREME_MAX_def)

subsection \<open>Invariants of the main loop\<close>

text \<open>
  Claim C9. The initial \<open>lastValidHeight\<close> is \<open>HEIGHT_STEPS[0]\<close>. In every state in which
  a cycle of the main loop can start, \<open>lastValidHeight\<close> is an element of \<open>HEIGHT_STEPS\<close>;
  the cycle completes, reports a \<open>heightSnapped\<close> that is an element of \<open>HEIGHT_STEPS\<close>
  and leaves \<open>lastValidHeight\<close> on the lattice. On a valid reading \<open>heightCalculated\<close> lies
  in \<open>[0, H_MAX_METERS]\<close> and \<open>heightSnapped\<close> is its snapped value; on an invalid
  reading the held value is reported again.
\<close>

theorem heights_on_lattice:
  "lastValidHeight globals0 = HEIGHT_STEPS ! 0 \<and>
   (reachable firmware_config s \<longrightarrow>
      lastValidHeight s \<in> set HEIGHT_STEPS \<and>
      (\<exists>s' fr. loop firmware_config s raw = Inr (s', fr) \<and>
         heightSnapped fr \<in> set HEIGHT_STEPS \<and> lastValidHeight s' \<in> set HEIGHT_STEPS \<and>
         (validateReading firmware_config s raw \<longrightarrow>
            0 \<le> heightCalculated fr \<and> heightCalculated fr \<le> H_MAX_METERS \<and>
            heightSnapped fr = snapToRealisticValue (heightCalculated fr)) \<and>
         (\<not> validateReading firmware_config s raw \<longrightarrow>
            heightSnapped fr = lastValidHeight s)))"
proof (intro conjI impI)
  show "lastValidHeight globals0 = HEIGHT_STEPS ! 0"
    by (simp add: globals0_def HEIGHT_STEPS_def)
next
  assume r: "reachable firmware_config s"
  from reachable_lastValidHeight[OF r firmware_range]
  show "lastValidHeight s \<in> set HEIGHT_STEPS" .
next
  assume r: "reachable firmware_config s"
  from cycle_heights[OF reachable_lastValidHeight[OF r firmware_range] firmware_range, of raw]
  show "\<exists>s' fr. loop firmware_config s raw = Inr (s', fr) \<and>
         heightSnapped fr \<in> set HEIGHT_STEPS \<and> lastValidHeight s' \<in> set HEIGHT_STEPS \<and>
         (validateReading firmware_config s raw \<longrightarrow>
            0 \<le> heightCalculated fr \<and> heightCalculated fr \<le> H_MAX_METERS \<and>
            heightSnapped fr = snapToRealisticValue (heightCalculated fr)) \<and>
         (\<not> validateReading firmware_config s raw \<longrightarrow>
            heightSnapped fr = lastValidHeight s)"
    by blast
qed

text \<open>The state left by start-up on a sensor that returns 510, and a first cycle on the
  reading 600.\<close>

theorem heights_on_lattice_witness:
  "reachable firmware_config (initializeSystem firmware_config 510 (\<lambda>i. 510) globals0) \<and>
   lastValidHeight (initializeSystem firmware_config 510 (\<lambda>i. 510) globals0)
     \<in> set HEIGHT_STEPS \<and>
   (\<exists>s' fr. loop firmware_config (initializeSystem firmware_config 510 (\<lambda>i. 510) globals0) 600
                = Inr (s', fr) \<and>
      heightSnapped fr \<in> set HEIGHT_STEPS \<and> lastValidHeight s' \<in> set HEIGHT_STEPS)"
  using heights_on_lattice[of "initializeSystem firmware_config 510 (\<lambda>i. 510) globals0" 600]
    reachable.start[of firmware_config 510 "\<lambda>i. 510"]
  by blast

text \<open>
  Claim C10. \<open>DENSITY_DIFF\<close> is positive, and in every cycle of the main loop
  \<open>heightSnapped\<close> is not negative, so that \<open>DENSITY_DIFF * GRAVITY * heightSnapped\<close> is
  not negative: neither the clamp of \<open>loop\<close> nor the clamp of \<open>calculateFlowRate\<close>
  changes it, the reported \<open>pressureDiff\<close> is that product, and the square root of
  \<open>calculateFlowRate\<close> is taken of it.
\<close>

theorem pressure_never_negative:
  "0 < DENSITY_DIFF \<and>
   (reachable firmware_config s \<longrightarrow>
      (\<exists>s' fr. loop firmware_config s raw = Inr (s', fr) \<and>
         0 \<le> heightSnapped fr \<and>
         \<not> DENSITY_DIFF * GRAVITY * heightSnapped fr < 0 \<and>
         pressureDiff fr = DENSITY_DIFF * GRAVITY * heightSnapped fr \<and>
         0 \<le> pressureDiff fr \<and>
         flowRate fr =
           (if heightSnapped fr < MIN_FLOW_HEIGHT then 0
            else FLOW_CONSTANT * sqrt (DENSITY_DIFF * GRAVITY * heightSnapped fr) * 1000)))"
proof (intro conjI impI)
  show "0 < DENSITY_DIFF"
    by (simp add: DENSITY_DIFF_def FLUID_DENSITY_def MANOMETER_DENSITY_def)
next
  assume r: "reachable firmware_config s"
  from cycle_heights[OF reachable_lastValidHeight[OF r firmware_range] firmware_range, of raw]
  obtain s' fr where step: "loop firmware_config s raw = Inr (s', fr)"
    and lat: "heightSnapped fr \<in> set HEIGHT_STEPS" by blast
  have h0: "0 \<le> heightSnapped fr" using lat by (rule lattice_nonneg)
  have p0: "0 \<le> DENSITY_DIFF * GRAVITY * heightSnapped fr"
    using DENSITY_GRAVITY_pos h0 by simp
  have "\<exists>v c m. fr = report raw v c (heightSnapped fr) m"
  proof (cases "validateReading firmware_config s raw")
    case True
    from loop_valid_range[OF True firmware_range] step
    obtain c m where "fr = report raw True c (snapToRealisticValue c) m" by auto
    then have "fr = report raw True c (heightSnapped fr) m" by simp
    then show ?thesis by blast
  next
    case False
    from loop_invalid_any[OF False] step
    obtain m where "fr = report raw False (lastValidHeight s) (lastValidHeight s) m" by auto
    then have "fr = report raw False (lastValidHeight s) (heightSnapped fr) m" by simp
    then show ?thesis by blast
  qed
  then obtain v c m where freq: "fr = report raw v c (heightSnapped fr) m" by blast
  have p: "pressureDiff fr = DENSITY_DIFF * GRAVITY * heightSnapped fr"
    using pressureDiff_report[OF h0, of raw v c m] freq by simp
  have q: "flowRate fr =
           (if heightSnapped fr < MIN_FLOW_HEIGHT then 0
            else FLOW_CONSTANT * sqrt (DENSITY_DIFF * GRAVITY * heightSnapped fr) * 1000)"
    using calculateFlowRate_unclamped[OF h0] freq report_simps(5)[of raw v c "heightSnapped fr" m]
    by simp
  from step h0 p0 p q
  show "\<exists>s' fr. loop firmware_config s raw = Inr (s', fr) \<and>
         0 \<le> heightSnapped fr \<and>
         \<not> DENSITY_DIFF * GRAVITY * heightSnapped fr < 0 \<and>
         pressureDiff fr = DENSITY_DIFF * GRAVITY * heightSnapped fr \<and>
         0 \<le> pressureDiff fr \<and>
         flowRate fr =
           (if heightSnapped fr < MIN_FLOW_HEIGHT then 0
            else FLOW_CONSTANT * sqrt (DENSITY_DIFF * GRAVITY * heightSnapped fr) * 1000)"
    by (intro exI[of _ s'] exI[of _ fr]) simp
qed

theorem pressure_never_negative_witness:
  "reachable firmware_config (initializeSystem firmware_config 9230 (\<lambda>i. 9230) globals0) \<and>
   (\<exists>s' fr. loop firmware_config (initializeSystem firmware_config 9230 (\<lambda>i. 9230) globals0) 9000
                = Inr (s', fr) \<and>
      pressureDiff fr = DENSITY_DIFF * GRAVITY * heightSnapped fr \<and> 0 \<le> pressureDiff fr)"
  using pressure_never_negative[of "initializeSystem firmware_config 9230 (\<lambda>i. 9230) globals0" 9000]
    reachable.start[of firmware_config 9230 "\<lambda>i. 9230"]
  by blast

end
